theory Spec2Isabelle
  imports Main "HOL-Library.Word"
begin

section \<open>Data model (Watchdog.h)\<close>

text \<open>
  \<open>uint32_t\<close> and \<open>TickType_t\<close> (32 bits on the ESP32) are \<open>32 word\<close>: arithmetic wraps.
  A \<open>TaskHandle_t\<close> is a pointer; it is modelled as a natural number, \<open>0\<close> being \<open>nullptr\<close>.
\<close>

type_synonym u32 = "32 word"
type_synonym TaskHandle_t = nat

text \<open>\<open>struct Watchdog::TaskInfo\<close>; \<open>missedFeeds\<close> is a \<open>std::atomic<uint32_t>\<close>.\<close>

record TaskInfo =
  handle :: TaskHandle_t
  name :: string
  lastFeedTime :: u32
  feedIntervalMs :: u32
  missedFeeds :: u32
  isCritical :: bool

text \<open>The data members of \<open>class Watchdog\<close> (the mutex apart, see the events below).\<close>

record Watchdog =
  initialized :: bool
  timeoutMs :: u32
  panicOnTimeout :: bool
  registeredTasks :: "TaskInfo list"

text \<open>The constructor: \<open>initialized_(false), timeoutMs_(DEFAULT_TIMEOUT_MS), panicOnTimeout_(true)\<close>.\<close>

definition DEFAULT_TIMEOUT_MS :: u32 where
  "DEFAULT_TIMEOUT_MS = 30000"

definition Watchdog_new :: Watchdog where
  "Watchdog_new = \<lparr>initialized = False, timeoutMs = DEFAULT_TIMEOUT_MS,
                    panicOnTimeout = True, registeredTasks = []\<rparr>"

section \<open>The platform\<close>

text \<open>
  The return codes of ESP-IDF's task watchdog that the code tells apart; every other code
  is \<open>ESP_ERR_OTHER\<close> with its number.
\<close>

datatype esp_err_t = ESP_OK | ESP_ERR_INVALID_STATE | ESP_ERR_NOT_FOUND | ESP_ERR_OTHER nat

text \<open>
  Two constants come from the FreeRTOS configuration, which is not part of the repository:
  \<open>configMAX_TASK_NAME_LEN\<close> and \<open>portTICK_PERIOD_MS\<close>. They are parameters.
\<close>

record config =
  MAX_TASK_NAME_LEN :: nat
  portTICK_PERIOD_MS :: u32

text \<open>
  What the platform answers during one call of the library: the handle of the calling task
  (\<open>xTaskGetCurrentTaskHandle\<close>), the tick count (\<open>xTaskGetTickCount\<close>), whether
  \<open>xSemaphoreTake\<close> obtains the mutex, and the results of \<open>esp_task_wdt_init\<close>,
  \<open>esp_task_wdt_status\<close>, \<open>esp_task_wdt_add\<close> and \<open>esp_task_wdt_delete\<close>.
\<close>

record env =
  currentTask :: TaskHandle_t
  tickCount :: u32
  lockTaken :: bool
  wdtInit :: esp_err_t
  wdtStatus :: esp_err_t
  wdtAdd :: esp_err_t
  wdtDelete :: esp_err_t

text \<open>
  Beside its result and the new state, every operation yields the sequence of its effects
  on shared things, in program order: taking and giving the mutex, writing a data member
  (a write to an element of the task list counts as a write of the list), and calling the
  task watchdog of ESP-IDF.
\<close>

datatype field = F_initialized | F_timeoutMs | F_panicOnTimeout | F_registeredTasks

datatype wdt_call =
    Wdt_init u32 bool
  | Wdt_delete TaskHandle_t
  | Wdt_status TaskHandle_t
  | Wdt_add TaskHandle_t
  | Wdt_reset

datatype event = Take | Give | Write field | Adapter wdt_call

text \<open>The three components of what an operation yields; \<open>after ev r\<close> is \<open>r\<close> with the
  effects \<open>ev\<close> before its own.\<close>

abbreviation result :: "'a \<times> 'b \<times> 'c \<Rightarrow> 'a" where
  "result r \<equiv> fst r"

abbreviation state :: "'a \<times> 'b \<times> 'c \<Rightarrow> 'b" where
  "state r \<equiv> fst (snd r)"

abbreviation events :: "'a \<times> 'b \<times> 'c \<Rightarrow> 'c" where
  "events r \<equiv> snd (snd r)"

definition after :: "event list \<Rightarrow> 'a \<times> 'b \<times> event list \<Rightarrow> 'a \<times> 'b \<times> event list" where
  "after ev r = (result r, state r, ev @ events r)"

section \<open>Operations (Watchdog.cpp)\<close>

text \<open>\<open>initWatchdogESPIDF\<close>: one call of \<open>esp_task_wdt_init\<close> with the stored settings.\<close>

definition initWatchdogESPIDF :: "env \<Rightarrow> Watchdog \<Rightarrow> esp_err_t \<times> event list" where
  "initWatchdogESPIDF e s = (wdtInit e, [Adapter (Wdt_init (timeoutMs s) (panicOnTimeout s))])"

definition init :: "env \<Rightarrow> u32 \<Rightarrow> bool \<Rightarrow> Watchdog \<Rightarrow> bool \<times> Watchdog \<times> event list" where
  "init e timeoutSeconds panic s =
     (if initialized s then (True, s, [])
      else if timeoutSeconds = 0 \<or> timeoutSeconds > 3600 then (False, s, [])
      else
        let s1 = s\<lparr>timeoutMs := timeoutSeconds * 1000, panicOnTimeout := panic\<rparr>;
            ev1 = [Write F_timeoutMs, Write F_panicOnTimeout];
            (err, ev2) = initWatchdogESPIDF e s1
        in if err = ESP_OK then
             (True, s1\<lparr>initialized := True\<rparr>, ev1 @ ev2 @ [Write F_initialized])
           else if err = ESP_ERR_INVALID_STATE then
             (True, s1\<lparr>initialized := True\<rparr>, ev1 @ ev2 @ [Write F_initialized])
           else (False, s1, ev1 @ ev2))"

definition deinit :: "env \<Rightarrow> Watchdog \<Rightarrow> bool \<times> Watchdog \<times> event list" where
  "deinit e s =
     (if \<not> initialized s then (True, s, [])
      else
        let (s1, ev1) =
              (if lockTaken e then
                 (s\<lparr>registeredTasks := []\<rparr>,
                  [Take] @ map (\<lambda>t. Adapter (Wdt_delete (handle t))) (registeredTasks s)
                    @ [Write F_registeredTasks, Give])
               else (s, []))
        in (True, s1\<lparr>initialized := False\<rparr>, ev1 @ [Write F_initialized]))"

text \<open>
  \<open>findTaskByHandle\<close> returns a pointer to the first element with the handle, or
  \<open>nullptr\<close>: here the index of that element, or \<open>None\<close>.
\<close>

fun findTaskByHandle :: "TaskInfo list \<Rightarrow> TaskHandle_t \<Rightarrow> nat option" where
  "findTaskByHandle [] h = None"
| "findTaskByHandle (t # ts) h =
     (if handle t = h then Some 0 else map_option Suc (findTaskByHandle ts h))"

text \<open>
  The second half of \<open>registerCurrentTask\<close>, from \<open>// Add to our internal tracking\<close>
  on. \<open>strncpy\<close> into the zeroed \<open>name\<close> keeps at most \<open>MAX_TASK_NAME_LEN - 1\<close>
  characters.
\<close>

definition trackCurrentTask ::
  "config \<Rightarrow> env \<Rightarrow> string \<Rightarrow> bool \<Rightarrow> u32 \<Rightarrow> Watchdog \<Rightarrow> bool \<times> Watchdog \<times> event list" where
  "trackCurrentTask cfg e taskName critical interval s =
     (if lockTaken e then
        (case findTaskByHandle (registeredTasks s) (currentTask e) of
           Some i \<Rightarrow> (True, s, [Take, Give])
         | None \<Rightarrow>
             let info = \<lparr>handle = currentTask e,
                         name = take (MAX_TASK_NAME_LEN cfg - 1) taskName,
                         lastFeedTime = tickCount e,
                         feedIntervalMs = (if interval > 0 then interval else timeoutMs s div 5),
                         missedFeeds = 0,
                         isCritical = critical\<rparr>
             in (True, s\<lparr>registeredTasks := registeredTasks s @ [info]\<rparr>,
                 [Take, Write F_registeredTasks, Give, Adapter Wdt_reset]))
      else (False, s, []))"

definition registerCurrentTask ::
  "config \<Rightarrow> env \<Rightarrow> string \<Rightarrow> bool \<Rightarrow> u32 \<Rightarrow> Watchdog \<Rightarrow> bool \<times> Watchdog \<times> event list" where
  "registerCurrentTask cfg e taskName critical interval s =
     (if \<not> initialized s then (False, s, [])
      else if currentTask e = 0 then (False, s, [])
      else
        let ev1 = [Adapter (Wdt_status (currentTask e))]
        in if wdtStatus e = ESP_OK then
             after ev1 (trackCurrentTask cfg e taskName critical interval s)
           else if wdtStatus e = ESP_ERR_NOT_FOUND then
             (let ev2 = ev1 @ [Adapter (Wdt_add (currentTask e))]
              in if wdtAdd e \<noteq> ESP_OK then (False, s, ev2)
                 else after ev2 (trackCurrentTask cfg e taskName critical interval s))
           else (False, s, ev1))"

text \<open>
  \<open>unregisterTaskByHandle\<close>: \<open>std::remove_if\<close> followed by \<open>erase\<close> keeps the elements
  with another handle, in their order; the list is written only when an element is erased.
  The parameter \<open>taskName\<close> only chooses the logged text and is left out.
\<close>

definition unregisterTaskByHandle ::
  "env \<Rightarrow> TaskHandle_t \<Rightarrow> Watchdog \<Rightarrow> bool \<times> Watchdog \<times> event list" where
  "unregisterTaskByHandle e taskHandle s =
     (if taskHandle = 0 then (False, s, [])
      else
        let ev1 = [Adapter (Wdt_delete taskHandle)]
        in if wdtDelete e \<noteq> ESP_OK \<and> wdtDelete e \<noteq> ESP_ERR_NOT_FOUND then (False, s, ev1)
           else if lockTaken e then
             (if \<exists>t \<in> set (registeredTasks s). handle t = taskHandle then
                (True, s\<lparr>registeredTasks := filter (\<lambda>t. handle t \<noteq> taskHandle) (registeredTasks s)\<rparr>,
                 ev1 @ [Take, Write F_registeredTasks, Give])
              else (True, s, ev1 @ [Take, Give]))
           else (True, s, ev1))"

definition unregisterCurrentTask :: "env \<Rightarrow> Watchdog \<Rightarrow> bool \<times> Watchdog \<times> event list" where
  "unregisterCurrentTask e s =
     (if currentTask e = 0 then (False, s, [])
      else unregisterTaskByHandle e (currentTask e) s)"

definition feed :: "env \<Rightarrow> Watchdog \<Rightarrow> bool \<times> Watchdog \<times> event list" where
  "feed e s =
     (if currentTask e = 0 then (False, s, [])
      else
        let h = currentTask e;
            (s1, ev1) =
              (if lockTaken e then
                 (case findTaskByHandle (registeredTasks s) h of
                    Some i \<Rightarrow>
                      (s\<lparr>registeredTasks := (registeredTasks s)
                            [i := (registeredTasks s ! i)\<lparr>lastFeedTime := tickCount e, missedFeeds := 0\<rparr>]\<rparr>,
                       [Take, Write F_registeredTasks, Give])
                  | None \<Rightarrow> (s, [Take, Give]))
               else (s, []));
            ev2 = [Adapter (Wdt_status h)] @ (if wdtStatus e = ESP_OK then [Adapter Wdt_reset] else [])
        in (True, s1, ev1 @ ev2))"

definition getRegisteredTaskCount :: "env \<Rightarrow> Watchdog \<Rightarrow> nat \<times> event list" where
  "getRegisteredTaskCount e s =
     (if lockTaken e then (length (registeredTasks s), [Take, Give]) else (0, []))"

text \<open>
  \<open>checkHealth\<close>. The test of the loop body, on 32-bit values:
  \<open>(now - task.lastFeedTime) * portTICK_PERIOD_MS > task.feedIntervalMs * 2\<close>.
\<close>

definition timeSinceLastFeedMs :: "config \<Rightarrow> u32 \<Rightarrow> TaskInfo \<Rightarrow> u32" where
  "timeSinceLastFeedMs cfg now t = (now - lastFeedTime t) * portTICK_PERIOD_MS cfg"

definition unhealthy :: "config \<Rightarrow> u32 \<Rightarrow> TaskInfo \<Rightarrow> bool" where
  "unhealthy cfg now t \<longleftrightarrow> timeSinceLastFeedMs cfg now t > feedIntervalMs t * 2"

text \<open>The loop over \<open>registeredTasks_\<close>: the count, the updated list and the writes.\<close>

fun checkTasks :: "config \<Rightarrow> u32 \<Rightarrow> TaskInfo list \<Rightarrow> nat \<times> TaskInfo list \<times> event list" where
  "checkTasks cfg now [] = (0, [], [])"
| "checkTasks cfg now (t # ts) =
     (let (n, ts', ev) = checkTasks cfg now ts
      in if unhealthy cfg now t then
           (Suc n, t\<lparr>missedFeeds := missedFeeds t + 1\<rparr> # ts', Write F_registeredTasks # ev)
         else (n, t # ts', ev))"

definition checkHealth :: "config \<Rightarrow> env \<Rightarrow> Watchdog \<Rightarrow> nat \<times> Watchdog \<times> event list" where
  "checkHealth cfg e s =
     (if lockTaken e then
        let (n, ts', ev) = checkTasks cfg (tickCount e) (registeredTasks s)
        in (n, s\<lparr>registeredTasks := ts'\<rparr>, [Take] @ ev @ [Give])
      else (0, s, []))"

section \<open>Executions\<close>

text \<open>A call of the public interface, and a run: a sequence of calls, each with the
  platform's answers during it, from a given state.\<close>

datatype call =
    Init u32 bool
  | Deinit
  | RegisterCurrentTask string bool u32
  | UnregisterCurrentTask
  | UnregisterTaskByHandle TaskHandle_t
  | Feed
  | GetRegisteredTaskCount
  | CheckHealth

fun step :: "config \<Rightarrow> env \<times> call \<Rightarrow> Watchdog \<Rightarrow> Watchdog" where
  "step cfg (e, Init timeoutSeconds panic) s = state (init e timeoutSeconds panic s)"
| "step cfg (e, Deinit) s = state (deinit e s)"
| "step cfg (e, RegisterCurrentTask taskName critical interval) s =
     state (registerCurrentTask cfg e taskName critical interval s)"
| "step cfg (e, UnregisterCurrentTask) s = state (unregisterCurrentTask e s)"
| "step cfg (e, UnregisterTaskByHandle h) s = state (unregisterTaskByHandle e h s)"
| "step cfg (e, Feed) s = state (feed e s)"
| "step cfg (e, GetRegisteredTaskCount) s = s"
| "step cfg (e, CheckHealth) s = state (checkHealth cfg e s)"

fun run :: "config \<Rightarrow> (env \<times> call) list \<Rightarrow> Watchdog \<Rightarrow> Watchdog" where
  "run cfg [] s = s"
| "run cfg (c # cs) s = run cfg cs (step cfg c s)"

text \<open>The data members written while the caller does not hold the mutex, given whether it
  holds it at the start of the sequence.\<close>

fun unlocked_writes :: "bool \<Rightarrow> event list \<Rightarrow> field list" where
  "unlocked_writes held [] = []"
| "unlocked_writes held (Take # es) = unlocked_writes True es"
| "unlocked_writes held (Give # es) = unlocked_writes False es"
| "unlocked_writes held (Write f # es) =
     (if held then unlocked_writes held es else f # unlocked_writes held es)"
| "unlocked_writes held (Adapter c # es) = unlocked_writes held es"

text \<open>The spec's staleness, in unbounded arithmetic: the elapsed time in milliseconds
  exceeds twice the feed interval.\<close>

definition stale_spec :: "config \<Rightarrow> u32 \<Rightarrow> TaskInfo \<Rightarrow> bool" where
  "stale_spec cfg now t \<longleftrightarrow>
     unat (now - lastFeedTime t) * unat (portTICK_PERIOD_MS cfg) > 2 * unat (feedIntervalMs t)"

text \<open>No wrap-around in the test of \<open>checkHealth\<close> for an entry: twice the interval and
  the elapsed milliseconds both fit 32 bits.\<close>

definition fits32 :: "config \<Rightarrow> u32 \<Rightarrow> TaskInfo \<Rightarrow> bool" where
  "fits32 cfg now t \<longleftrightarrow>
     unat (feedIntervalMs t) < 2 ^ 31
   \<and> unat (now - lastFeedTime t) * unat (portTICK_PERIOD_MS cfg) < 2 ^ 32"

text \<open>The invariant of the registry: the timeout is the default or one that \<open>init\<close>
  accepted, every entry has a positive feed interval and a handle that is not null, and no
  two entries have the same handle.\<close>

definition wd_inv :: "Watchdog \<Rightarrow> bool" where
  "wd_inv s \<longleftrightarrow>
     1000 \<le> timeoutMs s \<and> timeoutMs s \<le> 3600000
   \<and> (\<forall>t \<in> set (registeredTasks s). 0 < feedIntervalMs t \<and> handle t \<noteq> 0)
   \<and> distinct (map handle (registeredTasks s))"

section \<open>Concrete inputs\<close>

definition cfg1 :: config where
  "cfg1 = \<lparr>MAX_TASK_NAME_LEN = 16, portTICK_PERIOD_MS = 1\<rparr>"

text \<open>Task \<open>h\<close> calls at tick \<open>now\<close>; the mutex is free and the task watchdog answers
  \<open>ESP_OK\<close> to everything.\<close>

definition env_ok :: "TaskHandle_t \<Rightarrow> u32 \<Rightarrow> env" where
  "env_ok h now = \<lparr>currentTask = h, tickCount = now, lockTaken = True, wdtInit = ESP_OK,
                     wdtStatus = ESP_OK, wdtAdd = ESP_OK, wdtDelete = ESP_OK\<rparr>"

definition task1 :: "u32 \<Rightarrow> u32 \<Rightarrow> u32 \<Rightarrow> TaskInfo" where
  "task1 lastFeed interval missed =
     \<lparr>handle = 1, name = ''A'', lastFeedTime = lastFeed, feedIntervalMs = interval,
      missedFeeds = missed, isCritical = True\<rparr>"

definition wd1 :: "TaskInfo list \<Rightarrow> Watchdog" where
  "wd1 ts = \<lparr>initialized = True, timeoutMs = 10000, panicOnTimeout = False,
             registeredTasks = ts\<rparr>"

text \<open>\<open>init(10, false)\<close>, then task 1 registers as \<open>A\<close> with the default interval.\<close>

definition run1 :: "(env \<times> call) list" where
  "run1 = [(env_ok 1 0, Init 10 False), (env_ok 1 0, RegisterCurrentTask ''A'' True 0)]"

section \<open>Auxiliary facts\<close>

lemma findTaskByHandle_None: "findTaskByHandle ts h = None \<longleftrightarrow> h \<notin> handle ` set ts"
  by (induction ts) auto

lemma findTaskByHandle_Some:
  "findTaskByHandle ts h = Some i \<Longrightarrow> i < length ts \<and> handle (ts ! i) = h"
  by (induction ts arbitrary: i) (auto split: if_splits)

lemma findTaskByHandle_distinct:
  "distinct (map handle ts) \<Longrightarrow> i < length ts \<Longrightarrow> handle (ts ! i) = h \<Longrightarrow>
   findTaskByHandle ts h = Some i"
proof (induction ts arbitrary: i)
  case Nil
  then show ?case by simp
next
  case (Cons t ts)
  show ?case
  proof (cases i)
    case 0
    with Cons.prems show ?thesis by simp
  next
    case (Suc j)
    with Cons.prems have j: "j < length ts" "handle (ts ! j) = h" by simp_all
    then have "h \<in> handle ` set ts" by (metis imageI nth_mem)
    with Cons.prems have "handle t \<noteq> h" by auto
    moreover have "findTaskByHandle ts h = Some j"
      using Cons.IH [of j] Cons.prems j by simp
    ultimately show ?thesis using Suc by simp
  qed
qed

lemma checkTasks_count:
  "result (checkTasks cfg now ts) = length (filter (unhealthy cfg now) ts)"
  by (induction ts) (auto split: prod.splits)

lemma checkTasks_list:
  "state (checkTasks cfg now ts) =
     map (\<lambda>t. if unhealthy cfg now t then t\<lparr>missedFeeds := missedFeeds t + 1\<rparr> else t) ts"
  by (induction ts) (auto split: prod.splits)

lemma checkHealth_locked:
  "lockTaken e \<Longrightarrow>
   result (checkHealth cfg e s) = length (filter (unhealthy cfg (tickCount e)) (registeredTasks s))
   \<and> registeredTasks (state (checkHealth cfg e s)) =
       map (\<lambda>t. if unhealthy cfg (tickCount e) t then t\<lparr>missedFeeds := missedFeeds t + 1\<rparr> else t)
         (registeredTasks s)"
  using checkTasks_count [of cfg "tickCount e" "registeredTasks s"]
    checkTasks_list [of cfg "tickCount e" "registeredTasks s"]
  by (auto simp: checkHealth_def split: prod.splits)

lemma feed_locked:
  "lockTaken e \<Longrightarrow> currentTask e \<noteq> 0 \<Longrightarrow>
   findTaskByHandle (registeredTasks s) (currentTask e) = Some i \<Longrightarrow>
   registeredTasks (state (feed e s)) =
     (registeredTasks s)[i := (registeredTasks s ! i)\<lparr>lastFeedTime := tickCount e, missedFeeds := 0\<rparr>]"
  by (simp add: feed_def Let_def)

lemma timeout_in_range:
  fixes ts :: u32
  assumes "ts \<noteq> 0" and "ts \<le> 3600"
  shows "1000 \<le> ts * 1000 \<and> ts * 1000 \<le> 3600000"
proof -
  have a: "unat ts \<le> 3600" using assms(2) by (simp add: word_le_nat_alt)
  have b: "0 < unat ts" using assms(1) by (simp add: unat_gt_0)
  have "unat ts * unat (1000 :: u32) < 2 ^ LENGTH(32)" using a by simp
  then have "unat (ts * 1000) = unat ts * 1000"
    using unat_mult_lem [of ts "1000 :: u32"] by simp
  with a b show ?thesis by (simp add: word_le_nat_alt)
qed

lemma default_interval_positive:
  fixes w :: u32
  assumes "1000 \<le> w"
  shows "0 < w div 5"
proof -
  have "1000 \<le> unat w" using assms by (simp add: word_le_nat_alt)
  then have "0 < unat w div 5" by simp
  then have "0 < unat (w div 5)" by (simp add: unat_div)
  then show ?thesis by (simp add: word_less_nat_alt)
qed

lemma unhealthy_stale_spec:
  assumes "fits32 cfg now t"
  shows "unhealthy cfg now t \<longleftrightarrow> stale_spec cfg now t"
proof -
  have "unat (now - lastFeedTime t) * unat (portTICK_PERIOD_MS cfg) < 2 ^ LENGTH(32)"
    using assms by (simp add: fits32_def)
  then have a: "unat ((now - lastFeedTime t) * portTICK_PERIOD_MS cfg)
      = unat (now - lastFeedTime t) * unat (portTICK_PERIOD_MS cfg)"
    using unat_mult_lem [of "now - lastFeedTime t" "portTICK_PERIOD_MS cfg"] by simp
  have "unat (feedIntervalMs t) * unat (2 :: u32) < 2 ^ LENGTH(32)"
    using assms by (simp add: fits32_def)
  then have b: "unat (feedIntervalMs t * 2) = 2 * unat (feedIntervalMs t)"
    using unat_mult_lem [of "feedIntervalMs t" "2 :: u32"] by simp
  show ?thesis
    by (simp add: unhealthy_def stale_spec_def timeSinceLastFeedMs_def word_less_nat_alt a b)
qed

lemma fed_not_unhealthy: "lastFeedTime t = now \<Longrightarrow> \<not> unhealthy cfg now t"
  by (simp add: unhealthy_def timeSinceLastFeedMs_def)

lemma wd_inv_new: "wd_inv Watchdog_new"
  by (simp add: wd_inv_def Watchdog_new_def DEFAULT_TIMEOUT_MS_def)

lemma wd_inv_init: "wd_inv s \<Longrightarrow> wd_inv (state (init e ts p s))"
  using timeout_in_range [of ts]
  by (auto simp: wd_inv_def init_def initWatchdogESPIDF_def Let_def not_less)

lemma wd_inv_deinit: "wd_inv s \<Longrightarrow> wd_inv (state (deinit e s))"
  by (auto simp: wd_inv_def deinit_def Let_def)

lemma trackCurrentTask_cases:
  "state (trackCurrentTask cfg e n c iv s) = s
   \<or> (currentTask e \<notin> handle ` set (registeredTasks s)
      \<and> (\<exists>t. state (trackCurrentTask cfg e n c iv s) = s\<lparr>registeredTasks := registeredTasks s @ [t]\<rparr>
           \<and> handle t = currentTask e
           \<and> feedIntervalMs t = (if 0 < iv then iv else timeoutMs s div 5)))"
  by (auto simp: trackCurrentTask_def Let_def findTaskByHandle_None split: option.splits)

lemma registerCurrentTask_cases:
  "state (registerCurrentTask cfg e n c iv s) = s
   \<or> (currentTask e \<noteq> 0 \<and> state (registerCurrentTask cfg e n c iv s) = state (trackCurrentTask cfg e n c iv s))"
  by (auto simp: registerCurrentTask_def after_def Let_def)

lemma wd_inv_append:
  assumes "wd_inv s" and "handle t \<noteq> 0" and "handle t \<notin> handle ` set (registeredTasks s)"
    and "feedIntervalMs t = (if 0 < iv then iv else timeoutMs s div 5)"
  shows "wd_inv (s\<lparr>registeredTasks := registeredTasks s @ [t]\<rparr>)"
proof -
  have "0 < timeoutMs s div 5"
    using assms(1) default_interval_positive [of "timeoutMs s"] by (simp add: wd_inv_def)
  then have "0 < feedIntervalMs t" using assms(4) by simp
  then show ?thesis using assms(1-3) by (auto simp: wd_inv_def)
qed

lemma wd_inv_register: "wd_inv s \<Longrightarrow> wd_inv (state (registerCurrentTask cfg e n c iv s))"
  using registerCurrentTask_cases [of cfg e n c iv s] trackCurrentTask_cases [of cfg e n c iv s]
  by (metis wd_inv_append)

lemma wd_inv_unregisterByHandle: "wd_inv s \<Longrightarrow> wd_inv (state (unregisterTaskByHandle e h s))"
  by (auto simp: wd_inv_def unregisterTaskByHandle_def Let_def distinct_map_filter)

lemma wd_inv_unregister: "wd_inv s \<Longrightarrow> wd_inv (state (unregisterCurrentTask e s))"
  by (simp add: unregisterCurrentTask_def wd_inv_unregisterByHandle)

lemma wd_inv_update:
  assumes "wd_inv s" and "i < length (registeredTasks s)"
    and "handle t = handle (registeredTasks s ! i)"
    and "feedIntervalMs t = feedIntervalMs (registeredTasks s ! i)"
  shows "wd_inv (s\<lparr>registeredTasks := (registeredTasks s)[i := t]\<rparr>)"
proof -
  have m: "map handle ((registeredTasks s)[i := t]) = map handle (registeredTasks s)"
    using assms(2,3) by (simp add: map_update list_update_same_conv)
  have "0 < feedIntervalMs t \<and> handle t \<noteq> 0"
    using assms by (simp add: wd_inv_def)
  then have "\<forall>u \<in> set ((registeredTasks s)[i := t]). 0 < feedIntervalMs u \<and> handle u \<noteq> 0"
    using assms(1) set_update_subset_insert [of "registeredTasks s" i t]
    by (auto simp: wd_inv_def)
  then show ?thesis using assms(1) m by (simp add: wd_inv_def)
qed

lemma wd_inv_feed: "wd_inv s \<Longrightarrow> wd_inv (state (feed e s))"
  by (auto simp: feed_def Let_def wd_inv_update dest: findTaskByHandle_Some
      split: option.splits)

lemma wd_inv_checkHealth: "wd_inv s \<Longrightarrow> wd_inv (state (checkHealth cfg e s))"
proof (cases "lockTaken e")
  case True
  assume i: "wd_inv s"
  have m: "map handle (registeredTasks (state (checkHealth cfg e s))) = map handle (registeredTasks s)"
    using checkHealth_locked [OF True, of cfg s] by (simp add: comp_def if_distrib)
  have t: "timeoutMs (state (checkHealth cfg e s)) = timeoutMs s"
    by (simp add: checkHealth_def split: prod.splits)
  have "\<forall>u \<in> set (registeredTasks (state (checkHealth cfg e s))). 0 < feedIntervalMs u \<and> handle u \<noteq> 0"
    using i checkHealth_locked [OF True, of cfg s] by (auto simp: wd_inv_def)
  then show ?thesis using i m t by (simp add: wd_inv_def)
next
  case False
  assume "wd_inv s"
  with False show ?thesis by (simp add: checkHealth_def)
qed

lemma wd_inv_step: "wd_inv s \<Longrightarrow> wd_inv (step cfg c s)"
proof -
  assume i: "wd_inv s"
  obtain e k where c: "c = (e, k)" by (cases c)
  show ?thesis
    unfolding c using i
    by (cases k)
      (simp_all add: wd_inv_init wd_inv_deinit wd_inv_register wd_inv_unregister
        wd_inv_unregisterByHandle wd_inv_feed wd_inv_checkHealth)
qed

lemma run_invariant: "wd_inv s \<Longrightarrow> wd_inv (run cfg cs s)"
  by (induction cs arbitrary: s) (simp_all add: wd_inv_step)

lemma registerCurrentTask_new:
  assumes "result (registerCurrentTask cfg e n c iv s)"
    and "currentTask e \<notin> handle ` set (registeredTasks s)"
  shows "\<exists>t. registeredTasks (state (registerCurrentTask cfg e n c iv s)) = registeredTasks s @ [t]
           \<and> handle t = currentTask e
           \<and> feedIntervalMs t = (if 0 < iv then iv else timeoutMs s div 5)"
proof -
  have f: "findTaskByHandle (registeredTasks s) (currentTask e) = None"
    using assms(2) by (simp add: findTaskByHandle_None)
  show ?thesis
    using assms(1)
    by (auto simp: registerCurrentTask_def after_def trackCurrentTask_def Let_def f split: if_splits)
qed

lemma run1_state:
  "run cfg1 run1 Watchdog_new = wd1 [task1 0 2000 0]"
  by (simp add: run1_def cfg1_def env_ok_def Watchdog_new_def DEFAULT_TIMEOUT_MS_def init_def
      initWatchdogESPIDF_def registerCurrentTask_def after_def trackCurrentTask_def wd1_def task1_def)

section \<open>Initialisation\<close>

text \<open>
  C4. Initialisation is idempotent: once a call of \<open>init\<close> has returned success, a further
  call with any arguments (out-of-range ones too) and any answers of the platform returns
  success, leaves the whole state as it is, \<open>timeoutMs\<close> in particular, and has no effect.
\<close>

theorem init_idempotent:
  assumes "result (init e1 ts1 p1 s)"
  shows "init e2 ts2 p2 (state (init e1 ts1 p1 s)) = (True, state (init e1 ts1 p1 s), [])
       \<and> timeoutMs (state (init e2 ts2 p2 (state (init e1 ts1 p1 s))))
           = timeoutMs (state (init e1 ts1 p1 s))"
  using assms
  by (auto simp: init_def initWatchdogESPIDF_def Let_def split: if_splits)

theorem init_idempotent_witness:
  "result (init (env_ok 1 0) 10 True Watchdog_new)
   \<and> init (env_ok 1 0) 0 False (state (init (env_ok 1 0) 10 True Watchdog_new))
       = (True, state (init (env_ok 1 0) 10 True Watchdog_new), [])
   \<and> timeoutMs (state (init (env_ok 1 0) 0 False
        (state (init (env_ok 1 0) 10 True Watchdog_new)))) = 10000"
proof -
  have h: "result (init (env_ok 1 0) 10 True Watchdog_new)"
    by (simp add: init_def initWatchdogESPIDF_def env_ok_def Watchdog_new_def)
  have t: "timeoutMs (state (init (env_ok 1 0) 10 True Watchdog_new)) = 10000"
    by (simp add: init_def initWatchdogESPIDF_def env_ok_def Watchdog_new_def)
  show ?thesis
    using h t init_idempotent [OF h, of "env_ok 1 0" 0 False] by simp
qed

text \<open>
  C5. On a registry that is not initialised, \<open>init\<close> with \<open>timeoutSeconds = 0\<close> or
  \<open>timeoutSeconds > 3600\<close> returns failure and changes nothing: the state is the same
  (so \<open>initialized\<close> stays false, \<open>timeoutMs\<close>, \<open>panicOnTimeout\<close> and the task list are
  untouched) and neither the mutex nor the task watchdog is used. The code returns a plain
  \<open>false\<close>; the kind of the failure is only in the logged message.
\<close>

theorem init_rejects_timeout:
  assumes "\<not> initialized s" and "timeoutSeconds = 0 \<or> timeoutSeconds > 3600"
  shows "init e timeoutSeconds panic s = (False, s, [])"
  using assms by (auto simp: init_def)

theorem init_rejects_timeout_witness:
  "\<not> initialized Watchdog_new \<and> (3601 :: u32) > 3600
   \<and> init (env_ok 1 0) 0 False Watchdog_new = (False, Watchdog_new, [])
   \<and> init (env_ok 1 0) 3601 False Watchdog_new = (False, Watchdog_new, [])"
proof -
  have h: "\<not> initialized Watchdog_new" by (simp add: Watchdog_new_def)
  have g: "(3601 :: u32) > 3600" by simp
  show ?thesis
    using h g init_rejects_timeout [OF h, of 0 "env_ok 1 0" False]
      init_rejects_timeout [OF h, of 3601 "env_ok 1 0" False] by simp
qed

text \<open>
  C6. When \<open>init\<close> reaches the task watchdog (the registry is not initialised and the timeout
  is in range): if \<open>esp_task_wdt_init\<close> answers \<open>ESP_ERR_INVALID_STATE\<close> (already initialised
  by another component), \<open>init\<close> returns success and the registry is initialised; if it
  answers any error other than that, \<open>init\<close> returns failure and the registry stays
  uninitialised.
\<close>

theorem init_adapter_outcome:
  assumes "\<not> initialized s" and "timeoutSeconds \<noteq> 0" and "timeoutSeconds \<le> 3600"
  shows "(wdtInit e = ESP_ERR_INVALID_STATE \<longrightarrow>
            result (init e timeoutSeconds panic s)
          \<and> initialized (state (init e timeoutSeconds panic s)))
       \<and> (wdtInit e \<noteq> ESP_OK \<and> wdtInit e \<noteq> ESP_ERR_INVALID_STATE \<longrightarrow>
            \<not> result (init e timeoutSeconds panic s)
          \<and> \<not> initialized (state (init e timeoutSeconds panic s)))"
  using assms by (auto simp: init_def initWatchdogESPIDF_def Let_def)

theorem init_adapter_outcome_witness:
  "\<not> initialized Watchdog_new \<and> (10 :: u32) \<noteq> 0 \<and> (10 :: u32) \<le> 3600
   \<and> result (init ((env_ok 1 0)\<lparr>wdtInit := ESP_ERR_INVALID_STATE\<rparr>) 10 True Watchdog_new)
   \<and> initialized (state (init ((env_ok 1 0)\<lparr>wdtInit := ESP_ERR_INVALID_STATE\<rparr>) 10 True Watchdog_new))
   \<and> \<not> result (init ((env_ok 1 0)\<lparr>wdtInit := ESP_ERR_OTHER 257\<rparr>) 10 True Watchdog_new)
   \<and> \<not> initialized (state (init ((env_ok 1 0)\<lparr>wdtInit := ESP_ERR_OTHER 257\<rparr>) 10 True Watchdog_new))"
proof -
  have h: "\<not> initialized Watchdog_new" by (simp add: Watchdog_new_def)
  have a: "(10 :: u32) \<noteq> 0" by simp
  have b: "(10 :: u32) \<le> 3600" by simp
  show ?thesis
    using h a b
      init_adapter_outcome [OF h a b, of "(env_ok 1 0)\<lparr>wdtInit := ESP_ERR_INVALID_STATE\<rparr>" True]
      init_adapter_outcome [OF h a b, of "(env_ok 1 0)\<lparr>wdtInit := ESP_ERR_OTHER 257\<rparr>" True]
    by (simp add: env_ok_def)
qed

section \<open>Health check and feeding\<close>

text \<open>
  C1, as the code has it. \<open>missedFeeds\<close> is a 32-bit counter that wraps: a \<open>checkHealth\<close>
  that obtains the mutex adds one modulo \<open>2 ^ 32\<close> to the counter of every entry its test
  finds stale and leaves the counter of every other entry alone; a \<open>feed\<close> by the owning
  task that obtains the mutex sets the counter of its entry to zero (handles are distinct
  in every reachable state, see \<open>run_invariant\<close>).
\<close>

theorem missedFeeds_counter:
  assumes "lockTaken e" and "i < length (registeredTasks s)"
  shows "(unhealthy cfg (tickCount e) (registeredTasks s ! i) \<longrightarrow>
            unat (missedFeeds (registeredTasks (state (checkHealth cfg e s)) ! i))
              = (unat (missedFeeds (registeredTasks s ! i)) + 1) mod 2 ^ 32)
       \<and> (\<not> unhealthy cfg (tickCount e) (registeredTasks s ! i) \<longrightarrow>
            missedFeeds (registeredTasks (state (checkHealth cfg e s)) ! i)
              = missedFeeds (registeredTasks s ! i))
       \<and> (currentTask e \<noteq> 0 \<and> handle (registeredTasks s ! i) = currentTask e
            \<and> distinct (map handle (registeredTasks s)) \<longrightarrow>
            missedFeeds (registeredTasks (state (feed e s)) ! i) = 0)"
proof -
  have "currentTask e \<noteq> 0 \<Longrightarrow> handle (registeredTasks s ! i) = currentTask e \<Longrightarrow>
      distinct (map handle (registeredTasks s)) \<Longrightarrow>
      missedFeeds (registeredTasks (state (feed e s)) ! i) = 0"
    using assms findTaskByHandle_distinct [of "registeredTasks s" i "currentTask e"]
      feed_locked [of e s i] by simp
  then show ?thesis
    using assms checkHealth_locked [of e cfg s] by (simp add: unat_word_ariths)
qed

theorem missedFeeds_counter_witness:
  "lockTaken (env_ok 1 2500) \<and> (0 :: nat) < length (registeredTasks (wd1 [task1 0 1000 2]))
   \<and> unhealthy cfg1 2500 (task1 0 1000 2)
   \<and> unat (missedFeeds (registeredTasks
         (state (checkHealth cfg1 (env_ok 1 2500) (wd1 [task1 0 1000 2]))) ! 0)) = 3
   \<and> \<not> unhealthy cfg1 1500 (task1 0 1000 2)
   \<and> missedFeeds (registeredTasks
         (state (checkHealth cfg1 (env_ok 1 1500) (wd1 [task1 0 1000 2]))) ! 0) = 2
   \<and> currentTask (env_ok 1 2500) = 1
   \<and> map handle (registeredTasks (wd1 [task1 0 1000 2])) = [1]
   \<and> missedFeeds (registeredTasks (state (feed (env_ok 1 2500) (wd1 [task1 0 1000 2]))) ! 0) = 0"
proof -
  have l: "lockTaken (env_ok 1 2500)" "lockTaken (env_ok 1 1500)" by (simp_all add: env_ok_def)
  have n: "(0 :: nat) < length (registeredTasks (wd1 [task1 0 1000 2]))" by (simp add: wd1_def)
  have u: "unhealthy cfg1 2500 (task1 0 1000 2)" "\<not> unhealthy cfg1 1500 (task1 0 1000 2)"
    by (simp_all add: unhealthy_def timeSinceLastFeedMs_def cfg1_def task1_def)
  show ?thesis
    using l n u missedFeeds_counter [OF l(1) n, of cfg1] missedFeeds_counter [OF l(2) n, of cfg1]
    by (simp add: env_ok_def wd1_def task1_def)
qed

text \<open>
  C1 as stated fails: the counter does not saturate. An entry whose counter is at the
  maximum, \<open>4294967295\<close>, and that a scan finds stale has the counter \<open>0\<close> afterwards.
  And a \<open>feed\<close> that does not obtain the mutex within its 10 ms leaves the counter as
  it is.
\<close>

theorem missedFeeds_wraps_counterexample:
  "unhealthy cfg1 2500 (task1 0 1000 4294967295)
   \<and> map missedFeeds (registeredTasks (wd1 [task1 0 1000 4294967295])) = [4294967295]
   \<and> checkHealth cfg1 (env_ok 2 2500) (wd1 [task1 0 1000 4294967295])
       = (1, wd1 [task1 0 1000 0], [Take, Write F_registeredTasks, Give])
   \<and> state (feed ((env_ok 1 2500)\<lparr>lockTaken := False\<rparr>) (wd1 [task1 0 1000 3]))
       = wd1 [task1 0 1000 3]"
  by (simp add: checkHealth_def unhealthy_def timeSinceLastFeedMs_def cfg1_def task1_def
      wd1_def env_ok_def feed_def)

text \<open>
  C2, as the code has it. A \<open>checkHealth\<close> that obtains the mutex returns the number of
  entries that pass the test of the code, which is computed on 32-bit values. Where nothing
  wraps for any entry (\<open>fits32\<close>), these are exactly the entries whose elapsed time in
  milliseconds exceeds twice their \<open>feedIntervalMs\<close>. After a \<open>feed\<close> by the owning task
  that obtains the mutex, the entry has \<open>lastFeedTime\<close> equal to the tick count and
  \<open>missedFeeds = 0\<close>, and a \<open>checkHealth\<close> at the same tick does not find it stale and
  leaves it as it is.
\<close>

theorem checkHealth_counts_stale:
  assumes "lockTaken e"
  shows "result (checkHealth cfg e s)
           = length (filter (unhealthy cfg (tickCount e)) (registeredTasks s))
       \<and> ((\<forall>t \<in> set (registeredTasks s). fits32 cfg (tickCount e) t) \<longrightarrow>
            result (checkHealth cfg e s)
              = length (filter (stale_spec cfg (tickCount e)) (registeredTasks s)))
       \<and> (i < length (registeredTasks s) \<and> currentTask e \<noteq> 0
            \<and> handle (registeredTasks s ! i) = currentTask e
            \<and> distinct (map handle (registeredTasks s)) \<longrightarrow>
            lastFeedTime (registeredTasks (state (feed e s)) ! i) = tickCount e
          \<and> missedFeeds (registeredTasks (state (feed e s)) ! i) = 0
          \<and> \<not> unhealthy cfg (tickCount e) (registeredTasks (state (feed e s)) ! i)
          \<and> registeredTasks (state (checkHealth cfg e (state (feed e s)))) ! i
              = registeredTasks (state (feed e s)) ! i)"
proof -
  have a: "result (checkHealth cfg e s)
      = length (filter (unhealthy cfg (tickCount e)) (registeredTasks s))"
    using assms checkHealth_locked [of e cfg s] by simp
  have b: "length (filter (unhealthy cfg (tickCount e)) (registeredTasks s))
      = length (filter (stale_spec cfg (tickCount e)) (registeredTasks s))"
    if "\<forall>t \<in> set (registeredTasks s). fits32 cfg (tickCount e) t"
  proof -
    have "filter (unhealthy cfg (tickCount e)) (registeredTasks s)
        = filter (stale_spec cfg (tickCount e)) (registeredTasks s)"
      using that by (intro filter_cong) (auto simp: unhealthy_stale_spec)
    then show ?thesis by simp
  qed
  have c: "lastFeedTime (registeredTasks (state (feed e s)) ! i) = tickCount e
          \<and> missedFeeds (registeredTasks (state (feed e s)) ! i) = 0
          \<and> \<not> unhealthy cfg (tickCount e) (registeredTasks (state (feed e s)) ! i)
          \<and> registeredTasks (state (checkHealth cfg e (state (feed e s)))) ! i
              = registeredTasks (state (feed e s)) ! i"
    if h: "i < length (registeredTasks s)" "currentTask e \<noteq> 0"
      "handle (registeredTasks s ! i) = currentTask e" "distinct (map handle (registeredTasks s))"
  proof -
    have f: "findTaskByHandle (registeredTasks s) (currentTask e) = Some i"
      using h findTaskByHandle_distinct [of "registeredTasks s" i "currentTask e"] by simp
    have l: "registeredTasks (state (feed e s)) = (registeredTasks s)
        [i := (registeredTasks s ! i)\<lparr>lastFeedTime := tickCount e, missedFeeds := 0\<rparr>]"
      using assms h(2) f by (rule feed_locked)
    have t: "lastFeedTime (registeredTasks (state (feed e s)) ! i) = tickCount e"
      using l h(1) by simp
    then have u: "\<not> unhealthy cfg (tickCount e) (registeredTasks (state (feed e s)) ! i)"
      by (rule fed_not_unhealthy)
    have n: "i < length (registeredTasks (state (feed e s)))" using l h(1) by simp
    have "registeredTasks (state (checkHealth cfg e (state (feed e s)))) ! i
              = registeredTasks (state (feed e s)) ! i"
      using assms checkHealth_locked [of e cfg "state (feed e s)"] u n by simp
    with t u l h(1) show ?thesis by simp
  qed
  from a b c show ?thesis by simp
qed

theorem checkHealth_counts_stale_witness:
  "lockTaken (env_ok 1 2500)
   \<and> registeredTasks (wd1 [task1 0 1000 0]) = [task1 0 1000 0]
   \<and> fits32 cfg1 2500 (task1 0 1000 0)
   \<and> stale_spec cfg1 2500 (task1 0 1000 0)
   \<and> result (checkHealth cfg1 (env_ok 1 2500) (wd1 [task1 0 1000 0])) = 1
   \<and> currentTask (env_ok 1 2500) = 1
   \<and> map handle (registeredTasks (wd1 [task1 0 1000 0])) = [1]
   \<and> \<not> unhealthy cfg1 2500 (registeredTasks (state (feed (env_ok 1 2500) (wd1 [task1 0 1000 0]))) ! 0)
   \<and> result (checkHealth cfg1 (env_ok 1 2500) (state (feed (env_ok 1 2500) (wd1 [task1 0 1000 0])))) = 0"
proof -
  let ?e = "env_ok 1 2500" and ?s = "wd1 [task1 0 1000 0]"
  have l: "lockTaken ?e" by (simp add: env_ok_def)
  have r: "\<forall>t \<in> set (registeredTasks ?s). fits32 cfg1 (tickCount ?e) t"
    by (simp add: wd1_def task1_def fits32_def cfg1_def env_ok_def)
  have st: "stale_spec cfg1 2500 (task1 0 1000 0)"
    by (simp add: stale_spec_def task1_def cfg1_def)
  have t: "tickCount ?e = 2500" by (simp add: env_ok_def)
  have w: "registeredTasks ?s = [task1 0 1000 0]" by (simp add: wd1_def)
  have h: "(0 :: nat) < length (registeredTasks ?s) \<and> currentTask ?e \<noteq> 0
      \<and> handle (registeredTasks ?s ! 0) = currentTask ?e
      \<and> distinct (map handle (registeredTasks ?s))"
    by (simp add: wd1_def task1_def env_ok_def)
  have "result (checkHealth cfg1 ?e ?s)
      = length (filter (stale_spec cfg1 (tickCount ?e)) (registeredTasks ?s))"
    using checkHealth_counts_stale [OF l, of cfg1 ?s 0] r by blast
  then have c1: "result (checkHealth cfg1 ?e ?s) = 1" unfolding t w using st by simp
  have u: "\<not> unhealthy cfg1 (tickCount ?e) (registeredTasks (state (feed ?e ?s)) ! 0)"
    using checkHealth_counts_stale [OF l, of cfg1 ?s 0] h by blast
  have f: "registeredTasks (state (feed ?e ?s)) = [task1 2500 1000 0]"
    by (simp add: feed_def env_ok_def wd1_def task1_def)
  have "result (checkHealth cfg1 ?e (state (feed ?e ?s)))
      = length (filter (unhealthy cfg1 (tickCount ?e)) (registeredTasks (state (feed ?e ?s))))"
    using checkHealth_counts_stale [OF l, of cfg1 "state (feed ?e ?s)" 0] by blast
  then have c0: "result (checkHealth cfg1 ?e (state (feed ?e ?s))) = 0"
    using u unfolding f t by simp
  from u have u': "\<not> unhealthy cfg1 2500 (registeredTasks (state (feed ?e ?s)) ! 0)"
    unfolding t .
  have r': "fits32 cfg1 2500 (task1 0 1000 0)" using r unfolding t w by simp
  have hh: "currentTask ?e = 1" "map handle (registeredTasks ?s) = [1]"
    by (simp_all add: env_ok_def wd1_def task1_def)
  from l w r' st c1 hh u' c0 show ?thesis by blast
qed

text \<open>
  C2 as stated fails where the doubled interval wraps: with \<open>feedIntervalMs = 2 ^ 31\<close> the
  code compares against \<open>0\<close>, so an entry fed one millisecond ago is counted although
  \<open>1\<close> does not exceed \<open>2 * 2 ^ 31\<close>. And a \<open>checkHealth\<close> that does not obtain the mutex
  within its 10 ms returns \<open>0\<close> whatever the entries are.
\<close>

theorem checkHealth_overflow_counterexample:
  "result (checkHealth cfg1 (env_ok 2 1) (wd1 [task1 0 2147483648 0])) = 1
   \<and> \<not> stale_spec cfg1 1 (task1 0 2147483648 0)
   \<and> unat (1 - lastFeedTime (task1 0 2147483648 0)) * unat (portTICK_PERIOD_MS cfg1) = 1
   \<and> 2 * unat (feedIntervalMs (task1 0 2147483648 0)) = 4294967296
   \<and> stale_spec cfg1 2500 (task1 0 1000 0)
   \<and> checkHealth cfg1 ((env_ok 2 2500)\<lparr>lockTaken := False\<rparr>) (wd1 [task1 0 1000 0])
       = (0, wd1 [task1 0 1000 0], [])"
  by (simp add: checkHealth_def unhealthy_def timeSinceLastFeedMs_def cfg1_def task1_def
      wd1_def env_ok_def stale_spec_def)

section \<open>The mutex\<close>

text \<open>
  C3 does not hold of the code. \<open>init\<close> never takes the mutex: it writes \<open>timeoutMs_\<close>,
  \<open>panicOnTimeout_\<close> and \<open>initialized_\<close> without it. \<open>deinit\<close> clears the task list under
  the mutex and writes \<open>initialized_\<close> after giving it back.
\<close>

theorem init_writes_without_mutex:
  "events (init (env_ok 1 0) 10 True Watchdog_new)
     = [Write F_timeoutMs, Write F_panicOnTimeout, Adapter (Wdt_init 10000 True), Write F_initialized]
   \<and> unlocked_writes False (events (init (env_ok 1 0) 10 True Watchdog_new))
     = [F_timeoutMs, F_panicOnTimeout, F_initialized]
   \<and> events (deinit (env_ok 1 0) (wd1 [task1 0 1000 0]))
     = [Take, Adapter (Wdt_delete 1), Write F_registeredTasks, Give, Write F_initialized]
   \<and> unlocked_writes False (events (deinit (env_ok 1 0) (wd1 [task1 0 1000 0]))) = [F_initialized]"
  by (simp add: init_def initWatchdogESPIDF_def deinit_def env_ok_def Watchdog_new_def
      DEFAULT_TIMEOUT_MS_def wd1_def task1_def)

section \<open>Registration\<close>

text \<open>
  C7. In every state \<open>s\<close> that a sequence of calls reaches from the constructed registry,
  whatever the platform answers: every entry has \<open>feedIntervalMs > 0\<close>, and so has every
  entry after one more call of any operation; \<open>timeoutMs / 5\<close> is positive, as it is after
  every successful \<open>init\<close> of an uninitialised registry; and a registration that succeeds
  for a task without an entry appends one entry for it whose \<open>feedIntervalMs\<close> is the
  supplied value when that is positive and \<open>timeoutMs / 5\<close> when it is zero.
\<close>

theorem feedInterval_positive:
  assumes "s = run cfg cs Watchdog_new"
  shows "(\<forall>t \<in> set (registeredTasks s). 0 < feedIntervalMs t)
       \<and> (\<forall>t \<in> set (registeredTasks (step cfg c s)). 0 < feedIntervalMs t)
       \<and> 0 < timeoutMs s div 5
       \<and> (\<not> initialized sa \<and> result (init ea timeoutSeconds p sa) \<longrightarrow>
            0 < timeoutMs (state (init ea timeoutSeconds p sa)) div 5)
       \<and> (result (registerCurrentTask cfg e n cr iv s)
            \<and> currentTask e \<notin> handle ` set (registeredTasks s) \<longrightarrow>
            butlast (registeredTasks (state (registerCurrentTask cfg e n cr iv s))) = registeredTasks s
          \<and> handle (last (registeredTasks (state (registerCurrentTask cfg e n cr iv s)))) = currentTask e
          \<and> feedIntervalMs (last (registeredTasks (state (registerCurrentTask cfg e n cr iv s))))
              = (if 0 < iv then iv else timeoutMs s div 5)
          \<and> 0 < feedIntervalMs (last (registeredTasks (state (registerCurrentTask cfg e n cr iv s)))))"
proof -
  have i: "wd_inv s" unfolding assms using wd_inv_new by (rule run_invariant)
  then have a: "\<forall>t \<in> set (registeredTasks s). 0 < feedIntervalMs t" by (simp add: wd_inv_def)
  have "wd_inv (step cfg c s)" using i by (rule wd_inv_step)
  then have b: "\<forall>t \<in> set (registeredTasks (step cfg c s)). 0 < feedIntervalMs t"
    by (simp add: wd_inv_def)
  have d: "0 < timeoutMs s div 5"
    using i default_interval_positive [of "timeoutMs s"] by (simp add: wd_inv_def)
  have f: "0 < timeoutMs (state (init ea timeoutSeconds p sa)) div 5"
    if "\<not> initialized sa" "result (init ea timeoutSeconds p sa)"
  proof -
    have r: "timeoutSeconds \<noteq> 0 \<and> timeoutSeconds \<le> 3600"
      using that by (auto simp: init_def split: if_splits)
    then have "timeoutMs (state (init ea timeoutSeconds p sa)) = timeoutSeconds * 1000"
      using that(1) by (auto simp: init_def initWatchdogESPIDF_def Let_def)
    then show ?thesis
      using r timeout_in_range [of timeoutSeconds]
        default_interval_positive [of "timeoutSeconds * 1000"] by simp
  qed
  have g: "butlast (registeredTasks (state (registerCurrentTask cfg e n cr iv s))) = registeredTasks s
          \<and> handle (last (registeredTasks (state (registerCurrentTask cfg e n cr iv s)))) = currentTask e
          \<and> feedIntervalMs (last (registeredTasks (state (registerCurrentTask cfg e n cr iv s))))
              = (if 0 < iv then iv else timeoutMs s div 5)
          \<and> 0 < feedIntervalMs (last (registeredTasks (state (registerCurrentTask cfg e n cr iv s))))"
    if "result (registerCurrentTask cfg e n cr iv s)"
      "currentTask e \<notin> handle ` set (registeredTasks s)"
    using registerCurrentTask_new [OF that] d by auto
  from a b d f g show ?thesis by blast
qed

theorem feedInterval_positive_witness:
  "run cfg1 run1 Watchdog_new = wd1 [task1 0 2000 0]
   \<and> registeredTasks (wd1 [task1 0 2000 0]) = [task1 0 2000 0]
   \<and> 0 < feedIntervalMs (task1 0 2000 0)
   \<and> map feedIntervalMs (registeredTasks (run cfg1 run1 Watchdog_new)) = [2000]
   \<and> result (registerCurrentTask cfg1 (env_ok 2 5) ''B'' False 0 (wd1 [task1 0 2000 0]))
   \<and> currentTask (env_ok 2 5) \<notin> handle ` set (registeredTasks (wd1 [task1 0 2000 0]))
   \<and> feedIntervalMs (last (registeredTasks
        (state (registerCurrentTask cfg1 (env_ok 2 5) ''B'' False 0 (wd1 [task1 0 2000 0]))))) = 2000
   \<and> feedIntervalMs (last (registeredTasks
        (state (registerCurrentTask cfg1 (env_ok 2 5) ''B'' False 700 (wd1 [task1 0 2000 0]))))) = 700
   \<and> \<not> initialized Watchdog_new \<and> result (init (env_ok 1 0) 10 False Watchdog_new)
   \<and> 0 < timeoutMs (state (init (env_ok 1 0) 10 False Watchdog_new)) div 5"
proof -
  let ?s = "wd1 [task1 0 2000 0]"
  have s: "?s = run cfg1 run1 Watchdog_new" by (simp add: run1_state)
  have r: "result (registerCurrentTask cfg1 (env_ok 2 5) ''B'' False 0 ?s)"
    "result (registerCurrentTask cfg1 (env_ok 2 5) ''B'' False 700 ?s)"
    by (simp_all add: registerCurrentTask_def after_def trackCurrentTask_def env_ok_def wd1_def task1_def)
  have h: "currentTask (env_ok 2 5) \<notin> handle ` set (registeredTasks ?s)"
    by (simp add: env_ok_def wd1_def task1_def)
  have i: "\<not> initialized Watchdog_new" "result (init (env_ok 1 0) 10 False Watchdog_new)"
    by (simp_all add: Watchdog_new_def init_def initWatchdogESPIDF_def env_ok_def)
  have t: "timeoutMs ?s div 5 = 2000" by (simp add: wd1_def)
  have m: "map feedIntervalMs (registeredTasks (run cfg1 run1 Watchdog_new)) = [2000]"
    by (simp add: run1_state wd1_def task1_def)
  have a: "\<forall>t \<in> set (registeredTasks ?s). 0 < feedIntervalMs t"
    using feedInterval_positive [OF s] by blast
  have b: "feedIntervalMs (last (registeredTasks
        (state (registerCurrentTask cfg1 (env_ok 2 5) ''B'' False 0 ?s)))) = 2000"
    using feedInterval_positive [OF s, where e = "env_ok 2 5" and n = "''B''" and cr = False and iv = 0]
      r(1) h t by simp
  have c: "feedIntervalMs (last (registeredTasks
        (state (registerCurrentTask cfg1 (env_ok 2 5) ''B'' False 700 ?s)))) = 700"
    using feedInterval_positive [OF s, where e = "env_ok 2 5" and n = "''B''" and cr = False and iv = 700]
      r(2) h by simp
  have d: "0 < timeoutMs (state (init (env_ok 1 0) 10 False Watchdog_new)) div 5"
    using feedInterval_positive [OF s, where sa = Watchdog_new and ea = "env_ok 1 0"
        and timeoutSeconds = 10 and p = False] i by blast
  have w: "registeredTasks ?s = [task1 0 2000 0]" by (simp add: wd1_def)
  have a': "0 < feedIntervalMs (task1 0 2000 0)" using a unfolding w by simp
  from s w a' m r(1) h b c i d show ?thesis by simp
qed

text \<open>
  C8, as the code has it. A call of \<open>registerCurrentTask\<close> by a task that has an entry
  leaves the registry as it is: the number of entries and every field of every entry,
  \<open>lastFeedTime\<close> included. It returns success exactly when the registry is initialised,
  the task watchdog reports the task as subscribed (or as not found and then accepts it),
  and the mutex is obtained.
\<close>

theorem register_again:
  assumes "currentTask e \<noteq> 0" and "currentTask e \<in> handle ` set (registeredTasks s)"
  shows "state (registerCurrentTask cfg e n c iv s) = s
       \<and> fst (getRegisteredTaskCount e' (state (registerCurrentTask cfg e n c iv s)))
           = fst (getRegisteredTaskCount e' s)
       \<and> (result (registerCurrentTask cfg e n c iv s) \<longleftrightarrow>
            initialized s \<and> lockTaken e
          \<and> (wdtStatus e = ESP_OK \<or> wdtStatus e = ESP_ERR_NOT_FOUND \<and> wdtAdd e = ESP_OK))"
proof -
  obtain i where f: "findTaskByHandle (registeredTasks s) (currentTask e) = Some i"
    using assms(2) findTaskByHandle_None [of "registeredTasks s" "currentTask e"] by auto
  have t: "trackCurrentTask cfg e n c iv s = (if lockTaken e then (True, s, [Take, Give]) else (False, s, []))"
    by (simp add: trackCurrentTask_def f)
  show ?thesis
    using assms(1) by (auto simp: registerCurrentTask_def after_def t Let_def)
qed

theorem register_again_witness:
  "currentTask (env_ok 1 5) \<noteq> 0
   \<and> currentTask (env_ok 1 5) \<in> handle ` set (registeredTasks (wd1 [task1 0 1000 0]))
   \<and> registerCurrentTask cfg1 (env_ok 1 5) ''A'' True 1000 (wd1 [task1 0 1000 0])
       = (True, wd1 [task1 0 1000 0], [Adapter (Wdt_status 1), Take, Give])
   \<and> fst (getRegisteredTaskCount (env_ok 1 5)
        (state (registerCurrentTask cfg1 (env_ok 1 5) ''A'' True 1000 (wd1 [task1 0 1000 0])))) = 1"
proof -
  let ?e = "env_ok 1 5" and ?s = "wd1 [task1 0 1000 0]"
  have a: "currentTask ?e \<noteq> 0" by (simp add: env_ok_def)
  have b: "currentTask ?e \<in> handle ` set (registeredTasks ?s)"
    by (simp add: env_ok_def wd1_def task1_def)
  have o: "initialized ?s \<and> lockTaken ?e \<and> wdtStatus ?e = ESP_OK"
    by (simp add: env_ok_def wd1_def)
  have c: "fst (getRegisteredTaskCount ?e ?s) = 1"
    by (simp add: getRegisteredTaskCount_def env_ok_def wd1_def)
  have ev: "events (registerCurrentTask cfg1 ?e ''A'' True 1000 ?s) = [Adapter (Wdt_status 1), Take, Give]"
    by (simp add: registerCurrentTask_def after_def trackCurrentTask_def env_ok_def wd1_def task1_def)
  note r = register_again [OF a b, where cfg = cfg1 and n = "''A''" and c = True and iv = 1000
      and e' = ?e]
  have st: "state (registerCurrentTask cfg1 ?e ''A'' True 1000 ?s) = ?s"
    using r by blast
  have re: "result (registerCurrentTask cfg1 ?e ''A'' True 1000 ?s)"
    using r o by blast
  have n: "fst (getRegisteredTaskCount ?e (state (registerCurrentTask cfg1 ?e ''A'' True 1000 ?s))) = 1"
    using r c by simp
  have "registerCurrentTask cfg1 ?e ''A'' True 1000 ?s = (True, ?s, [Adapter (Wdt_status 1), Take, Give])"
    using st re ev by (simp add: prod_eq_iff)
  with a b n show ?thesis by blast
qed

text \<open>
  C8 as stated fails: the second registration does not always succeed. When
  \<open>esp_task_wdt_status\<close> answers \<open>ESP_ERR_INVALID_STATE\<close>, the call returns failure before
  it looks at the task list.
\<close>

theorem register_again_counterexample:
  "initialized (wd1 [task1 0 1000 0])
   \<and> map handle (registeredTasks (wd1 [task1 0 1000 0])) = [1]
   \<and> registerCurrentTask cfg1 ((env_ok 1 5)\<lparr>wdtStatus := ESP_ERR_INVALID_STATE\<rparr>) ''A'' True 1000
        (wd1 [task1 0 1000 0])
       = (False, wd1 [task1 0 1000 0], [Adapter (Wdt_status 1)])"
  by (simp add: registerCurrentTask_def after_def trackCurrentTask_def env_ok_def wd1_def task1_def)

section \<open>Feeding without an entry\<close>

text \<open>
  C9. A \<open>feed\<close> by a task (its handle is not null) that has no entry returns success and
  leaves the registry as it is: no entry is created, the count and every entry are
  unchanged. This is so in particular after \<open>unregisterTaskByHandle\<close> has removed the
  task's entry.
\<close>

theorem feed_unregistered:
  assumes "currentTask e \<noteq> 0"
  shows "(currentTask e \<notin> handle ` set (registeredTasks s) \<longrightarrow>
            result (feed e s) \<and> state (feed e s) = s
          \<and> fst (getRegisteredTaskCount e' (state (feed e s))) = fst (getRegisteredTaskCount e' s))
       \<and> (lockTaken eu \<and> result (unregisterTaskByHandle eu (currentTask e) su) \<longrightarrow>
            currentTask e \<notin> handle ` set (registeredTasks (state (unregisterTaskByHandle eu (currentTask e) su)))
          \<and> result (feed e (state (unregisterTaskByHandle eu (currentTask e) su)))
          \<and> state (feed e (state (unregisterTaskByHandle eu (currentTask e) su)))
              = state (unregisterTaskByHandle eu (currentTask e) su))"
proof -
  have a: "result (feed e s) \<and> state (feed e s) = s" 
    if "currentTask e \<notin> handle ` set (registeredTasks s)" for s
  proof -
    have "findTaskByHandle (registeredTasks s) (currentTask e) = None"
      using that by (simp add: findTaskByHandle_None)
    then show ?thesis using assms by (simp add: feed_def Let_def)
  qed
  have b: "currentTask e \<notin> handle ` set (registeredTasks (state (unregisterTaskByHandle eu (currentTask e) su)))"
    if "lockTaken eu" "result (unregisterTaskByHandle eu (currentTask e) su)"
    using that assms by (auto simp: unregisterTaskByHandle_def Let_def split: if_splits)
  from a [of s] a [OF b] b show ?thesis by auto
qed

theorem feed_unregistered_witness:
  "currentTask (env_ok 1 7) \<noteq> 0
   \<and> currentTask (env_ok 1 7) \<notin> handle ` set (registeredTasks (wd1 []))
   \<and> lockTaken (env_ok 2 6) \<and> result (unregisterTaskByHandle (env_ok 2 6) 1 (wd1 [task1 0 1000 0]))
   \<and> state (unregisterTaskByHandle (env_ok 2 6) 1 (wd1 [task1 0 1000 0])) = wd1 []
   \<and> result (feed (env_ok 1 7) (wd1 []))
   \<and> state (feed (env_ok 1 7) (wd1 [])) = wd1 []
   \<and> fst (getRegisteredTaskCount (env_ok 1 7) (state (feed (env_ok 1 7) (wd1 [])))) = 0"
proof -
  have a: "currentTask (env_ok 1 7) \<noteq> 0" by (simp add: env_ok_def)
  have b: "currentTask (env_ok 1 7) \<notin> handle ` set (registeredTasks (wd1 []))"
    by (simp add: wd1_def)
  have c: "currentTask (env_ok 1 7) = 1" by (simp add: env_ok_def)
  have l: "lockTaken (env_ok 2 6)" by (simp add: env_ok_def)
  have u: "unregisterTaskByHandle (env_ok 2 6) 1 (wd1 [task1 0 1000 0])
      = (True, wd1 [], [Adapter (Wdt_delete 1), Take, Write F_registeredTasks, Give])"
    by (simp add: unregisterTaskByHandle_def env_ok_def wd1_def task1_def)
  have g: "fst (getRegisteredTaskCount (env_ok 1 7) (wd1 [])) = 0"
    by (simp add: getRegisteredTaskCount_def env_ok_def wd1_def)
  have "result (feed (env_ok 1 7) (wd1 [])) \<and> state (feed (env_ok 1 7) (wd1 [])) = wd1 []
      \<and> fst (getRegisteredTaskCount (env_ok 1 7) (state (feed (env_ok 1 7) (wd1 [])))) = 0"
    using feed_unregistered [OF a, where s = "wd1 []" and e' = "env_ok 1 7"] b g by simp
  moreover have "result (feed (env_ok 1 7) (state (unregisterTaskByHandle (env_ok 2 6) 1 (wd1 [task1 0 1000 0]))))"
    using feed_unregistered [OF a, where eu = "env_ok 2 6" and su = "wd1 [task1 0 1000 0]"]
      l u c by simp
  ultimately show ?thesis using a b l u g by simp
qed

text \<open>
  C10. When the handle of the calling task is null, \<open>feed\<close> returns failure, leaves the
  registry as it is, and neither takes the mutex nor calls the task watchdog; when the
  handle is not null and the task has no entry, \<open>feed\<close> returns success.
\<close>

theorem feed_without_task_handle:
  "(currentTask e = 0 \<longrightarrow> feed e s = (False, s, []))
 \<and> (currentTask e \<noteq> 0 \<and> currentTask e \<notin> handle ` set (registeredTasks s) \<longrightarrow> result (feed e s))"
  by (auto simp: feed_def Let_def split: prod.splits)

theorem feed_without_task_handle_witness:
  "currentTask (env_ok 0 5) = 0
   \<and> feed (env_ok 0 5) (wd1 [task1 0 1000 3]) = (False, wd1 [task1 0 1000 3], [])
   \<and> currentTask (env_ok 2 5) \<noteq> 0
   \<and> currentTask (env_ok 2 5) \<notin> handle ` set (registeredTasks (wd1 [task1 0 1000 3]))
   \<and> result (feed (env_ok 2 5) (wd1 [task1 0 1000 3]))"
proof -
  have a: "currentTask (env_ok 0 5) = 0" by (simp add: env_ok_def)
  have b: "currentTask (env_ok 2 5) \<noteq> 0
      \<and> currentTask (env_ok 2 5) \<notin> handle ` set (registeredTasks (wd1 [task1 0 1000 3]))"
    by (simp add: env_ok_def wd1_def task1_def)
  show ?thesis
    using a b feed_without_task_handle [of "env_ok 0 5" "wd1 [task1 0 1000 3]"]
      feed_without_task_handle [of "env_ok 2 5" "wd1 [task1 0 1000 3]"]
    by simp
qed

end
